theory Spec2Isabelle
  imports Main
begin

section \<open>Errors, responders and sessions\<close>

text \<open>
  Go error values as the server distinguishes them: the end-of-stream value
  \<open>io.EOF\<close> (compared with \<open>==\<close> in \<open>writeError\<close>), values of the type
  \<open>ClientError\<close> (the type assertion in \<open>serveClient\<close>), the not-exist error
  that \<open>os.IsNotExist\<close> recognises, and every other error.
\<close>

datatype error = EOF | ClientError string | ErrNotExist | OtherError string

fun is_ClientError :: "error \<Rightarrow> bool" where
  "is_ClientError (ClientError m) = True"
| "is_ClientError e = False"

text \<open>
  Modelled from the spec: \<open>UnknownCommand\<close> is not part of the source file; the
  specification says that an absent name fails with an "unknown command" recoverable
  error, that is, a \<open>ClientError\<close> naming the command.
\<close>

definition UnknownCommand :: "string \<Rightarrow> error" where
  "UnknownCommand cmd = ClientError (''unknown command '' @ cmd)"

text \<open>
  Modelled from the spec: the \<open>Responder\<close> accumulates reply fragments or a single
  error; the two are mutually exclusive and the last kind written wins.
\<close>

datatype responder = Replies "string list" | ErrorReply error

definition NewResponder :: responder where
  "NewResponder = Replies []"

fun WriteFragment :: "responder \<Rightarrow> string \<Rightarrow> responder" where
  "WriteFragment (Replies fs) f = Replies (fs @ [f])"
| "WriteFragment (ErrorReply e) f = Replies [f]"

definition WriteError :: "responder \<Rightarrow> error \<Rightarrow> responder" where
  "WriteError res err = ErrorReply err"


text \<open>
  One decoded unit on the wire: a command name and its arguments. The codec is not part
  of the source file; its results are the input of the model.
\<close>

type_synonym frame = "string \<times> string list"

text \<open>
  What happened on a transport, in order: a decode attempt and its outcome, a reply
  written in full, a write that failed, the close of the transport.
\<close>

datatype event =
    Decode "error + frame"
  | Wrote responder
  | WriteFailed responder error
  | Closed

text \<open>
  A \<open>net.Conn\<close>: the units the peer will send (\<open>inbox\<close>, an exhausted inbox is the
  end of the stream), the outcome of the k-th write (\<open>wfails\<close>, an expired deadline or
  a broken pipe is an error there), the number of writes so far, what \<open>Close\<close> will
  return, and the history of the transport.
\<close>

record conn =
  inbox :: "(error + frame) list"
  wfails :: "nat \<Rightarrow> error option"
  nwrites :: nat
  close_err :: "error option"
  closed :: bool
  log :: "event list"

text \<open>
  Modelled from the spec: a Session (\<open>Client\<close>) has an identity, its transport, the
  quit flag, a counter of commands processed and the last command name.
\<close>

record client =
  cid :: nat
  conn :: conn
  quit :: bool
  processed :: nat
  lastCommand :: string

record request =
  name :: string
  args :: "string list"
  client :: "client option"

text \<open>
  Modelled from the spec: \<open>trackCommand\<close> updates the session's per-command
  counters (commands processed, last command name).
\<close>

definition trackCommand :: "client \<Rightarrow> string \<Rightarrow> client" where
  "trackCommand c cmd = c\<lparr>processed := processed c + 1, lastCommand := cmd\<rparr>"

text \<open>
  Modelled from the spec: the handler contract. Given the responder and the request, a
  handler may write reply fragments or an error to the responder, may set the quit flag
  of the session behind the request, and returns an error value. The result is the
  responder after the call, whether the quit flag was set, and the returned error.
\<close>

type_synonym handler = "responder \<Rightarrow> request \<Rightarrow> responder \<times> bool \<times> error option"

definition set_quit :: "bool \<Rightarrow> client option \<Rightarrow> client option" where
  "set_quit q co = (if q then map_option (\<lambda>c. c\<lparr>quit := True\<rparr>) co else co)"

text \<open>
  Modelled from the spec: \<open>WriteTo\<close> serialises the accumulated payload to the
  transport and reports a write error.
\<close>

definition WriteTo :: "responder \<Rightarrow> conn \<Rightarrow> conn \<times> error option" where
  "WriteTo res c =
     (case wfails c (nwrites c) of
        Some e \<Rightarrow> (c\<lparr>nwrites := nwrites c + 1, log := log c @ [WriteFailed res e]\<rparr>, Some e)
      | None \<Rightarrow> (c\<lparr>nwrites := nwrites c + 1, log := log c @ [Wrote res]\<rparr>, None))"

text \<open>
  Modelled from the spec: \<open>ParseRequest\<close> decodes one request from the stream, is
  resumable across calls, and reports the end of the stream as \<open>io.EOF\<close>. The
  request it builds has no session attached.
\<close>

definition ParseRequest :: "conn \<Rightarrow> (error + request) \<times> conn" where
  "ParseRequest c =
     (case inbox c of
        [] \<Rightarrow> (Inl EOF, c\<lparr>log := log c @ [Decode (Inl EOF)]\<rparr>)
      | Inl e # rest \<Rightarrow> (Inl e, c\<lparr>inbox := rest, log := log c @ [Decode (Inl e)]\<rparr>)
      | Inr f # rest \<Rightarrow>
          (Inr \<lparr>name = fst f, args = snd f, client = None\<rparr>,
           c\<lparr>inbox := rest, log := log c @ [Decode (Inr f)]\<rparr>))"

section \<open>The server\<close>

text \<open>
  Modelled from the spec: the configuration (listen address, socket path, keep-alive
  interval, idle timeout) and the stats registry (cumulative connections accepted,
  cumulative commands dispatched) with its two hooks.
\<close>

record config =
  Addr :: string
  Socket :: string
  TCPKeepAlive :: int
  Timeout :: int

record server_info =
  connections :: nat
  commands_dispatched :: nat

definition onConnect :: "server_info \<Rightarrow> server_info" where
  "onConnect i = i\<lparr>connections := connections i + 1\<rparr>"

definition onCommand :: "server_info \<Rightarrow> server_info" where
  "onCommand i = i\<lparr>commands_dispatched := commands_dispatched i + 1\<rparr>"

text \<open>A \<open>net.Listener\<close>: its network and address, and what \<open>Close\<close> will return.\<close>

record listener =
  network :: string
  laddr :: string
  lclose_err :: "error option"

record server =
  config :: config
  info :: server_info
  commands :: "string \<rightharpoonup> handler"
  tcp :: "listener option"
  unix :: "listener option"
  clients :: "(nat \<times> client) list"


subsection \<open>Registration and dispatch\<close>

text \<open>
  \<open>strings.ToLower\<close>. On a name whose bytes are all ASCII the letters A to Z are mapped
  to a to z and every other byte is left as it is. On a name that holds another byte the
  standard library maps each rune through its Unicode tables and rewrites invalid UTF-8;
  that mapping is not part of the repository and is a parameter of the model
  (\<open>unicode_lower\<close>), so that nothing is assumed about it.
\<close>

definition ascii :: "string \<Rightarrow> bool" where
  "ascii s = list_all (\<lambda>c. \<not> digit7 c) s"

definition to_lower_char :: "char \<Rightarrow> char" where
  "to_lower_char c =
     (case map_of (zip ''ABCDEFGHIJKLMNOPQRSTUVWXYZ'' ''abcdefghijklmnopqrstuvwxyz'') c of
        Some l \<Rightarrow> l
      | None \<Rightarrow> c)"

definition ToLower :: "(string \<Rightarrow> string) \<Rightarrow> string \<Rightarrow> string" where
  "ToLower unicode_lower s = (if ascii s then map to_lower_char s else unicode_lower s)"

definition Handle :: "(string \<Rightarrow> string) \<Rightarrow> server \<Rightarrow> string \<Rightarrow> handler \<Rightarrow> server" where
  "Handle unicode_lower srv nm h =
     srv\<lparr>commands := (commands srv)(ToLower unicode_lower nm \<mapsto> h)\<rparr>"

definition HandleFunc :: "(string \<Rightarrow> string) \<Rightarrow> server \<Rightarrow> string \<Rightarrow> handler \<Rightarrow> server" where
  "HandleFunc unicode_lower srv nm callback = Handle unicode_lower srv nm callback"

text \<open>
  \<open>Apply\<close> returns the responder (or nil) and the error (or nil) as the source does;
  the server and the session behind \<open>req.client\<close> are mutated in place by the source
  and returned here.
\<close>

definition Apply ::
  "server \<Rightarrow> request \<Rightarrow> server \<times> client option \<times> responder option \<times> error option" where
  "Apply srv req =
     (case commands srv (name req) of
        None \<Rightarrow> (srv, client req, None, Some (UnknownCommand (name req)))
      | Some cmd \<Rightarrow>
          (let srv1 = srv\<lparr>info := onCommand (info srv)\<rparr>;
               req1 = (case client req of
                         None \<Rightarrow> req
                       | Some c \<Rightarrow> req\<lparr>client := Some (trackCommand c (name req))\<rparr>)
           in case cmd NewResponder req1 of
                (res, q, err) \<Rightarrow> (srv1, set_quit q (client req1), Some res, err)))"

subsection \<open>The serve loop\<close>

definition writeError :: "conn \<Rightarrow> error \<Rightarrow> conn" where
  "writeError c err =
     (if err = EOF then c else fst (WriteTo (WriteError NewResponder err) c))"

text \<open>Why the serve loop returned: one constructor for each way out of it.\<close>

datatype exit_reason =
    DecodeFailed error
  | Fatal error
  | WriteBroken error
  | Quit
  | NilResponder

text \<open>
  One pass through the body of the loop of \<open>serveClient\<close>: \<open>None\<close> is the next pass
  (\<open>continue\<close>, or the end of the body), \<open>Some\<close> is a \<open>return\<close>. The deadline armed
  before the decode is not modelled as such: its expiry is a decode error in the inbox or
  a write error.
\<close>

definition serve_iteration ::
  "server \<Rightarrow> client \<Rightarrow> (server \<times> client) \<times> exit_reason option" where
  "serve_iteration srv cl =
     (case ParseRequest (conn cl) of
        (Inl err, c1) \<Rightarrow> ((srv, cl\<lparr>conn := writeError c1 err\<rparr>), Some (DecodeFailed err))
      | (Inr req0, c1) \<Rightarrow>
          (let cl1 = cl\<lparr>conn := c1\<rparr>;
               req = req0\<lparr>client := Some cl1\<rparr>
           in case Apply srv req of
                (srv', co, res, err) \<Rightarrow>
                  (let cl2 = (case co of Some c \<Rightarrow> c | None \<Rightarrow> cl1)
                   in case err of
                        Some e \<Rightarrow>
                          (let cl3 = cl2\<lparr>conn := writeError (conn cl2) e\<rparr>
                           in if is_ClientError e then ((srv', cl3), None)
                              else ((srv', cl3), Some (Fatal e)))
                      | None \<Rightarrow>
                          (case res of
                             None \<Rightarrow> ((srv', cl2), Some NilResponder)
                           | Some r \<Rightarrow>
                               (case WriteTo r (conn cl2) of
                                  (c2, Some e) \<Rightarrow> ((srv', cl2\<lparr>conn := c2\<rparr>), Some (WriteBroken e))
                                | (c2, None) \<Rightarrow>
                                    if quit cl2 then ((srv', cl2\<lparr>conn := c2\<rparr>), Some Quit)
                                    else ((srv', cl2\<lparr>conn := c2\<rparr>), None))))))"

function serve_loop :: "server \<Rightarrow> client \<Rightarrow> (server \<times> client) \<times> exit_reason" where
  "serve_loop srv cl =
     (case serve_iteration srv cl of
        (st, Some x) \<Rightarrow> (st, x)
      | ((srv', cl'), None) \<Rightarrow> serve_loop srv' cl')"
  by pat_completeness auto
termination
proof (relation "measure (\<lambda>(srv, cl). length (inbox (conn cl)))")
  show "wf (measure (\<lambda>(srv, cl). length (inbox (conn cl))))"
    by simp
next
  fix srv cl x1 x2 srv' cl'
  assume "(x1, x2) = serve_iteration srv cl" and "x2 = None" and "(srv', cl') = x1"
  then have it: "serve_iteration srv cl = ((srv', cl'), None)"
    by simp
  then have "length (inbox (conn cl')) < length (inbox (conn cl))"
    by (auto simp: serve_iteration_def ParseRequest_def Apply_def writeError_def WriteTo_def
          set_quit_def trackCommand_def Let_def
          split: list.splits sum.splits option.splits if_splits prod.splits)
  then show "((srv', cl'), srv, cl) \<in> measure (\<lambda>(srv, cl). length (inbox (conn cl)))"
    by simp
qed


subsection \<open>The session registry\<close>

text \<open>
  Modelled from the spec: the registry maps identities to sessions. \<open>Put\<close> adds or
  replaces by identity; \<open>Close\<close> of an identity closes that transport and deletes the
  entry (the result says whether there was one); \<open>Clear\<close> closes every registered
  transport and empties the mapping, and reports a failed close. The sessions that
  \<open>Clear\<close> closed are returned, as they are after the close.
\<close>

definition conn_Close :: "conn \<Rightarrow> conn" where
  "conn_Close c = c\<lparr>closed := True, log := log c @ [Closed]\<rparr>"

definition client_close :: "client \<Rightarrow> client" where
  "client_close c = c\<lparr>conn := conn_Close (conn c)\<rparr>"

definition Put :: "(nat \<times> client) list \<Rightarrow> client \<Rightarrow> (nat \<times> client) list" where
  "Put cs c = (cid c, c) # filter (\<lambda>(i, x). i \<noteq> cid c) cs"

definition clients_Close :: "(nat \<times> client) list \<Rightarrow> nat \<Rightarrow> (nat \<times> client) list \<times> bool" where
  "clients_Close cs i = (filter (\<lambda>(j, x). j \<noteq> i) cs, i \<in> fst ` set cs)"

definition Clear :: "(nat \<times> client) list \<Rightarrow> (nat \<times> client) list \<times> client list \<times> error option" where
  "Clear cs =
     ([], map (\<lambda>(i, c). client_close c) cs,
      fold (\<lambda>(i, c) err. case close_err (conn c) of Some e \<Rightarrow> Some e | None \<Rightarrow> err) cs None)"

subsection \<open>Serving one client\<close>

text \<open>
  \<open>serveClient\<close>: the session is registered, the connection is counted, the loop runs,
  and the deferred \<open>Close\<close> of the registry entry closes the transport on the way out.
  The keep-alive setting of the socket has no effect on what is read or written.
\<close>

definition serveClient :: "server \<Rightarrow> client \<Rightarrow> server \<times> client \<times> exit_reason" where
  "serveClient srv cl =
     (let srv1 = srv\<lparr>clients := Put (clients srv) cl\<rparr>;
          srv2 = srv1\<lparr>info := onConnect (info srv1)\<rparr>
      in case serve_loop srv2 cl of
           ((srv3, cl3), x) \<Rightarrow>
             (case clients_Close (clients srv3) (cid cl3) of
                (cs, found) \<Rightarrow>
                  (srv3\<lparr>clients := cs\<rparr>, if found then client_close cl3 else cl3, x)))"

subsection \<open>Shutdown\<close>

text \<open>What a shutdown closed, in order: a listener, or a session (as it is afterwards).\<close>

datatype effect = ListenerClosed listener | SessionClosed client

definition Close :: "server \<Rightarrow> server \<times> effect list \<times> error option" where
  "Close srv =
     (case (case tcp srv of
              None \<Rightarrow> (srv, [], None)
            | Some l \<Rightarrow>
                (srv\<lparr>tcp := None\<rparr>, [ListenerClosed l],
                 (case lclose_err l of Some e \<Rightarrow> Some e | None \<Rightarrow> None))) of
        (s1, fx1, err1) \<Rightarrow>
     (case (case unix s1 of
              None \<Rightarrow> (s1, fx1, err1)
            | Some l \<Rightarrow>
                (s1\<lparr>unix := None\<rparr>, fx1 @ [ListenerClosed l],
                 (case lclose_err l of Some e \<Rightarrow> Some e | None \<Rightarrow> err1))) of
        (s2, fx2, err2) \<Rightarrow>
     (case Clear (clients s2) of
        (cs, gone, e) \<Rightarrow>
          (s2\<lparr>clients := cs\<rparr>, fx2 @ map SessionClosed gone,
           if err2 \<noteq> None then e else err2))))"

subsection \<open>The socket path\<close>

text \<open>
  The part of the file system that \<open>listenUnix\<close> touches: what is at each path, and
  the paths where \<open>os.Stat\<close> or \<open>os.RemoveAll\<close> fail for another reason than absence
  (a permission error, say).
\<close>

datatype fkind = SocketFile | RegularFile | Directory

record fsys =
  nodes :: "string \<rightharpoonup> fkind"
  stat_err :: "string \<rightharpoonup> error"
  remove_err :: "string \<rightharpoonup> error"

definition os_Stat :: "fsys \<Rightarrow> string \<Rightarrow> fkind option \<times> error option" where
  "os_Stat fs p =
     (case stat_err fs p of
        Some e \<Rightarrow> (None, Some e)
      | None \<Rightarrow> (case nodes fs p of None \<Rightarrow> (None, Some ErrNotExist) | Some k \<Rightarrow> (Some k, None)))"

definition os_IsNotExist :: "error option \<Rightarrow> bool" where
  "os_IsNotExist err = (err = Some ErrNotExist)"

definition IsDir :: "fkind \<Rightarrow> bool" where
  "IsDir k = (k = Directory)"

definition os_RemoveAll :: "fsys \<Rightarrow> string \<Rightarrow> fsys \<times> error option" where
  "os_RemoveAll fs p =
     (case remove_err fs p of
        Some e \<Rightarrow> (fs, Some e)
      | None \<Rightarrow>
          (fs\<lparr>nodes := (\<lambda>q. if q = p \<or> take (length p + 1) q = p @ ''/'' then None
                             else nodes fs q)\<rparr>, None))"

text \<open>
  \<open>net.Listen\<close> on the unix network binds the path: it fails when something is at the
  path already, and creates the socket file otherwise.
\<close>

datatype listen_result = Panic | Failed error | Listening listener

definition net_Listen_unix :: "fsys \<Rightarrow> string \<Rightarrow> listen_result \<times> fsys" where
  "net_Listen_unix fs p =
     (case nodes fs p of
        Some k \<Rightarrow> (Failed (OtherError ''bind: address already in use''), fs)
      | None \<Rightarrow>
          (Listening \<lparr>network = ''unix'', laddr = p, lclose_err = None\<rparr>,
           fs\<lparr>nodes := (nodes fs)(p \<mapsto> SocketFile)\<rparr>))"

definition srv_Socket :: "server \<Rightarrow> string" where
  "srv_Socket srv = Socket (config srv)"

text \<open>
  \<open>listenUnix\<close>: the condition is evaluated left to right, so \<open>stat.IsDir()\<close> is
  called whenever the error of \<open>os.Stat\<close> is not a not-exist error, also when
  \<open>os.Stat\<close> failed and \<open>stat\<close> is nil, where the call panics.
\<close>

definition listenUnix :: "server \<Rightarrow> fsys \<Rightarrow> listen_result \<times> fsys" where
  "listenUnix srv fs =
     (case os_Stat fs (srv_Socket srv) of
        (stat, err) \<Rightarrow>
          if \<not> os_IsNotExist err then
            (case stat of
               None \<Rightarrow> (Panic, fs)
             | Some fi \<Rightarrow>
                 if \<not> IsDir fi then
                   (case os_RemoveAll fs (srv_Socket srv) of
                      (fs', Some e) \<Rightarrow> (Failed e, fs')
                    | (fs', None) \<Rightarrow> net_Listen_unix fs' (srv_Socket srv))
                 else net_Listen_unix fs (srv_Socket srv))
          else net_Listen_unix fs (srv_Socket srv))"


section \<open>Example inputs\<close>

definition conn0 :: conn where
  "conn0 = \<lparr>inbox = [], wfails = (\<lambda>k. None), nwrites = 0, close_err = None,
            closed = False, log = []\<rparr>"

definition client0 :: client where
  "client0 = \<lparr>cid = 1, conn = conn0, quit = False, processed = 0, lastCommand = []\<rparr>"

definition server0 :: server where
  "server0 = \<lparr>config = \<lparr>Addr = ''127.0.0.1:9736'', Socket = ''/tmp/redeo.sock'',
                         TCPKeepAlive = 0, Timeout = 0\<rparr>,
              info = \<lparr>connections = 0, commands_dispatched = 0\<rparr>,
              commands = Map.empty, tcp = None, unix = None, clients = []\<rparr>"

definition ping :: handler where
  "ping res req = (WriteFragment res ''PONG'', False, None)"

definition bye :: handler where
  "bye res req = (WriteFragment res ''OK'', True, None)"

definition boom :: handler where
  "boom res req = (WriteFragment res ''partial'', False, Some (OtherError ''boom''))"

text \<open>
  The names of the examples are ASCII, where \<open>strings.ToLower\<close> does not consult the
  Unicode tables; the parameter is then without effect.
\<close>

definition no_tables :: "string \<Rightarrow> string" where
  "no_tables s = s"

definition demo_server :: server where
  "demo_server =
     Handle no_tables (Handle no_tables (Handle no_tables server0 ''PING'' ping) ''QUIT'' bye)
       ''BOOM'' boom"

definition client_with :: "(error + frame) list \<Rightarrow> client" where
  "client_with ds = client0\<lparr>conn := conn0\<lparr>inbox := ds\<rparr>\<rparr>"





definition tcp_failing :: listener where
  "tcp_failing = \<lparr>network = ''tcp'', laddr = ''127.0.0.1:9736'',
                   lclose_err = Some (OtherError ''use of closed network connection'')\<rparr>"

definition fs_regular :: fsys where
  "fs_regular = \<lparr>nodes = [''/tmp/redeo.sock'' \<mapsto> RegularFile], stat_err = Map.empty,
                  remove_err = Map.empty\<rparr>"

definition fs_directory :: fsys where
  "fs_directory = \<lparr>nodes = [''/tmp/redeo.sock'' \<mapsto> Directory], stat_err = Map.empty,
                    remove_err = Map.empty\<rparr>"

section \<open>Notions used in the statements\<close>

text \<open>The server as the loop of \<open>serveClient\<close> finds it: session registered, connection counted.\<close>

definition registered :: "server \<Rightarrow> client \<Rightarrow> server" where
  "registered srv cl = srv\<lparr>clients := Put (clients srv) cl, info := onConnect (info srv)\<rparr>"

text \<open>What the next decode on the transport yields.\<close>

definition next_unit :: "conn \<Rightarrow> error + frame" where
  "next_unit c = (case inbox c of [] \<Rightarrow> Inl EOF | d # ds \<Rightarrow> d)"

text \<open>
  A name that holds one of the bytes A to Z, and a command table none of whose keys does.
  In UTF-8 these bytes occur as the upper-case ASCII letters only.
\<close>

definition has_upper :: "string \<Rightarrow> bool" where
  "has_upper s = list_ex (\<lambda>c. c \<in> set ''ABCDEFGHIJKLMNOPQRSTUVWXYZ'') s"

definition lower_keys :: "server \<Rightarrow> bool" where
  "lower_keys srv \<longleftrightarrow> (\<forall>k. commands srv k \<noteq> None \<longrightarrow> \<not> has_upper k)"

text \<open>The replies written in full, in the order of the history.\<close>

fun written :: "event list \<Rightarrow> responder list" where
  "written [] = []"
| "written (Wrote r # evs) = r # written evs"
| "written (e # evs) = written evs"

text \<open>
  A handler that never ends the session: it never sets the quit flag, and an error it
  returns is a \<open>ClientError\<close>.
\<close>

definition benign :: "handler \<Rightarrow> bool" where
  "benign h \<longleftrightarrow>
     (\<forall>res req r q e. h res req = (r, q, e) \<longrightarrow>
        \<not> q \<and> (\<forall>x. e = Some x \<longrightarrow> is_ClientError x))"

text \<open>
  \<open>r\<close> is the reply to the frame \<open>f\<close>: the unknown-command error when the name is not
  registered, and otherwise what the registered handler produces for a request with this
  name and these arguments, its responder or, when it returns an error, that error.
\<close>

definition reply_to :: "server \<Rightarrow> frame \<Rightarrow> responder \<Rightarrow> bool" where
  "reply_to srv f r \<longleftrightarrow>
     (case commands srv (fst f) of
        None \<Rightarrow> r = ErrorReply (UnknownCommand (fst f))
      | Some h \<Rightarrow>
          (\<exists>req. name req = fst f \<and> args req = snd f \<and>
             (case h NewResponder req of
                (res, q, err) \<Rightarrow> r = (case err of None \<Rightarrow> res | Some e \<Rightarrow> ErrorReply e))))"

text \<open>The history of a pipelined exchange: each request decoded, then its reply written.\<close>

fun exchange :: "frame list \<Rightarrow> responder list \<Rightarrow> event list" where
  "exchange (f # fs) (r # rs) = Decode (Inr f) # Wrote r # exchange fs rs"
| "exchange fs rs = []"

section \<open>Dispatch\<close>

text \<open>
  Claim C10. When \<open>Apply\<close> is called with a request whose name is not registered, it
  returns a nil responder together with the unknown-command error, and nothing else
  changes: the server (and with it the commands-dispatched counter) and the session
  behind the request (and with it its per-command counters) are as they were.
\<close>

theorem Apply_unregistered_unchanged:
  "commands srv (name req) = None \<Longrightarrow>
   Apply srv req = (srv, client req, None, Some (UnknownCommand (name req)))"
  by (simp add: Apply_def)

theorem Apply_unregistered_unchanged_witness:
  "commands server0 (name \<lparr>name = ''nope'', args = [], client = Some client0\<rparr>) = None \<and>
   Apply server0 \<lparr>name = ''nope'', args = [], client = Some client0\<rparr> =
     (server0, Some client0, None, Some (UnknownCommand ''nope''))"
  using Apply_unregistered_unchanged
          [of server0 "\<lparr>name = ''nope'', args = [], client = Some client0\<rparr>"]
  by (simp add: server0_def)

text \<open>
  Claim C2, as amended. A call of \<open>Apply\<close> whose name is registered increments the
  commands-dispatched counter by exactly one; a call whose lookup fails leaves the
  counter as it was.
\<close>

theorem Apply_counts_registered_only:
  "(commands srv (name req) \<noteq> None \<longrightarrow>
      commands_dispatched (info (fst (Apply srv req))) = commands_dispatched (info srv) + 1) \<and>
   (commands srv (name req) = None \<longrightarrow>
      commands_dispatched (info (fst (Apply srv req))) = commands_dispatched (info srv))"
  by (auto simp: Apply_def onCommand_def Let_def split: prod.splits)

theorem Apply_counts_registered_only_witness:
  "commands demo_server ''ping'' \<noteq> None \<and>
   commands_dispatched
     (info (fst (Apply demo_server \<lparr>name = ''ping'', args = [], client = None\<rparr>))) = 1 \<and>
   commands demo_server ''PING'' = None \<and>
   commands_dispatched
     (info (fst (Apply demo_server \<lparr>name = ''PING'', args = [], client = None\<rparr>))) = 0"
  using Apply_counts_registered_only
          [of demo_server "\<lparr>name = ''ping'', args = [], client = None\<rparr>"]
        Apply_counts_registered_only
          [of demo_server "\<lparr>name = ''PING'', args = [], client = None\<rparr>"]
  by (simp add: demo_server_def Handle_def ToLower_def ascii_def to_lower_char_def server0_def)

text \<open>
  The claim as it was stated fails on a failed lookup: the counter is not one more than
  before.
\<close>

theorem Apply_counts_failed_lookup_counterexample:
  "commands server0 ''nope'' = None \<and>
   commands_dispatched
     (info (fst (Apply server0 \<lparr>name = ''nope'', args = [], client = None\<rparr>)))
     \<noteq> commands_dispatched (info server0) + 1"
  by (simp add: Apply_def server0_def)

subsection \<open>Case of the names\<close>

lemma to_lower_char_not_upper:
  "to_lower_char c \<notin> set ''ABCDEFGHIJKLMNOPQRSTUVWXYZ''"
  by (simp add: to_lower_char_def)

lemma folded_no_upper: "\<not> has_upper (map to_lower_char s)"
  unfolding has_upper_def list_ex_iff using to_lower_char_not_upper by auto

lemma ToLower_no_upper:
  "ascii nm \<or> \<not> has_upper (u nm) \<Longrightarrow> \<not> has_upper (ToLower u nm)"
  using folded_no_upper by (auto simp: ToLower_def)

lemma lower_keys_empty: "commands srv = Map.empty \<Longrightarrow> lower_keys srv"
  by (simp add: lower_keys_def)

text \<open>
  Claim C3, as amended. \<open>Handle\<close> folds the registered name and \<open>Apply\<close> looks the
  name of the request up as it is. So: a request whose name is the lower-case form of the
  registered name is resolved to the handler; the registration leaves the lookup of every
  other name, and what \<open>Apply\<close> does for it, as it was; a table whose keys hold no
  upper-case letter stays so under \<open>Handle\<close> (for an ASCII name, and for any other name
  when the Unicode mapping yields none); and with such a table a request whose name
  holds an upper-case letter is not resolved: \<open>Apply\<close> answers unknown command and
  changes nothing.
\<close>

theorem Apply_resolves_lowercased_name:
  "(name req = ToLower u nm \<longrightarrow>
      Apply (Handle u srv nm h) req =
        (let srv1 = (Handle u srv nm h)\<lparr>info := onCommand (info srv)\<rparr>;
             req1 = (case client req of
                       None \<Rightarrow> req
                     | Some c \<Rightarrow> req\<lparr>client := Some (trackCommand c (name req))\<rparr>)
         in case h NewResponder req1 of
              (res, q, err) \<Rightarrow> (srv1, set_quit q (client req1), Some res, err))) \<and>
   (name req \<noteq> ToLower u nm \<longrightarrow>
      commands (Handle u srv nm h) (name req) = commands srv (name req) \<and>
      fst (Apply (Handle u srv nm h) req) = Handle u (fst (Apply srv req)) nm h \<and>
      snd (Apply (Handle u srv nm h) req) = snd (Apply srv req)) \<and>
   (lower_keys srv \<and> (ascii nm \<or> \<not> has_upper (u nm)) \<longrightarrow>
      lower_keys (Handle u srv nm h)) \<and>
   (lower_keys tbl \<and> has_upper (name rq) \<longrightarrow>
      Apply tbl rq = (tbl, client rq, None, Some (UnknownCommand (name rq))))"
proof (intro conjI impI)
  assume "name req = ToLower u nm"
  then show "Apply (Handle u srv nm h) req =
        (let srv1 = (Handle u srv nm h)\<lparr>info := onCommand (info srv)\<rparr>;
             req1 = (case client req of
                       None \<Rightarrow> req
                     | Some c \<Rightarrow> req\<lparr>client := Some (trackCommand c (name req))\<rparr>)
         in case h NewResponder req1 of
              (res, q, err) \<Rightarrow> (srv1, set_quit q (client req1), Some res, err))"
    by (simp add: Apply_def Handle_def Let_def)
next
  assume ne: "name req \<noteq> ToLower u nm"
  then show "commands (Handle u srv nm h) (name req) = commands srv (name req)"
    by (simp add: Handle_def)
  from ne show "fst (Apply (Handle u srv nm h) req) = Handle u (fst (Apply srv req)) nm h"
    by (simp add: Apply_def Handle_def Let_def split: option.splits prod.splits)
  from ne show "snd (Apply (Handle u srv nm h) req) = snd (Apply srv req)"
    by (simp add: Apply_def Handle_def Let_def split: option.splits prod.splits)
next
  assume "lower_keys srv \<and> (ascii nm \<or> \<not> has_upper (u nm))"
  then show "lower_keys (Handle u srv nm h)"
    using ToLower_no_upper [of nm u] by (auto simp: lower_keys_def Handle_def)
next
  assume "lower_keys tbl \<and> has_upper (name rq)"
  then have "commands tbl (name rq) = None"
    by (auto simp: lower_keys_def)
  then show "Apply tbl rq = (tbl, client rq, None, Some (UnknownCommand (name rq)))"
    by (simp add: Apply_def)
qed

theorem Apply_resolves_lowercased_name_witness:
  "name \<lparr>name = ''ping'', args = [], client = None\<rparr> = ToLower no_tables ''PinG'' \<and>
   Apply (Handle no_tables server0 ''PinG'' ping) \<lparr>name = ''ping'', args = [], client = None\<rparr> =
     ((Handle no_tables server0 ''PinG'' ping)\<lparr>info := onCommand (info server0)\<rparr>, None,
      Some (Replies [''PONG'']), None) \<and>
   name \<lparr>name = ''ping'', args = [], client = None\<rparr> \<noteq> ToLower no_tables ''Quit'' \<and>
   commands (Handle no_tables (Handle no_tables server0 ''PinG'' ping) ''Quit'' bye) ''ping'' =
     Some ping \<and>
   ascii ''PinG'' \<and> has_upper (name \<lparr>name = ''PING'', args = [], client = None\<rparr>) \<and>
   Apply (Handle no_tables server0 ''PinG'' ping) \<lparr>name = ''PING'', args = [], client = None\<rparr> =
     (Handle no_tables server0 ''PinG'' ping, None, None, Some (UnknownCommand ''PING''))"
proof -
  let ?req = "\<lparr>name = ''ping'', args = [], client = None\<rparr>"
  let ?RQ = "\<lparr>name = ''PING'', args = [], client = None\<rparr>"
  let ?tbl = "Handle no_tables server0 ''PinG'' ping"
  have a: "name ?req = ToLower no_tables ''PinG''"
    by (simp add: ToLower_def ascii_def to_lower_char_def)
  have b: "name ?req \<noteq> ToLower no_tables ''Quit''"
    by (simp add: ToLower_def ascii_def to_lower_char_def)
  have c: "ascii ''PinG''" by (simp add: ascii_def)
  have d: "has_upper (name ?RQ)" by (simp add: has_upper_def)
  have e: "lower_keys server0"
    by (rule lower_keys_empty) (simp add: server0_def)
  from Apply_resolves_lowercased_name [of ?req no_tables "''PinG''" server0 ping]
  have k: "lower_keys ?tbl" using e c by blast
  from Apply_resolves_lowercased_name [of ?req no_tables "''PinG''" server0 ping] a
  have 1: "Apply ?tbl ?req =
     (?tbl\<lparr>info := onCommand (info server0)\<rparr>, None, Some (Replies [''PONG'']), None)"
    by (simp add: ping_def NewResponder_def set_quit_def)
  from Apply_resolves_lowercased_name [of ?req no_tables "''Quit''" ?tbl bye] b
  have "commands (Handle no_tables ?tbl ''Quit'' bye) (name ?req) = commands ?tbl (name ?req)"
    by blast
  moreover have "commands ?tbl (name ?req) = Some ping"
    by (simp add: Handle_def ToLower_def ascii_def to_lower_char_def)
  ultimately have 2: "commands (Handle no_tables ?tbl ''Quit'' bye) ''ping'' = Some ping"
    by simp
  from Apply_resolves_lowercased_name [where tbl = ?tbl and rq = ?RQ] k d
  have 3: "Apply ?tbl ?RQ = (?tbl, None, None, Some (UnknownCommand ''PING''))"
    by simp
  from a b c d 1 2 3 show ?thesis by blast
qed

text \<open>
  The claim as it was stated fails for a request in upper case: its name differs from
  the registered name only in letter case, and the lookup fails.
\<close>

theorem Apply_case_variant_counterexample:
  "ToLower no_tables (name \<lparr>name = ''PING'', args = [], client = None\<rparr>) =
     ToLower no_tables ''ping'' \<and>
   snd (snd (Apply (Handle no_tables server0 ''ping'' ping)
               \<lparr>name = ''PING'', args = [], client = None\<rparr>)) =
     (None, Some (UnknownCommand ''PING''))"
  by (simp add: Apply_def Handle_def ToLower_def ascii_def to_lower_char_def server0_def)

section \<open>The serve loop\<close>

subsection \<open>Unfolding the loop\<close>

lemmas serve_defs = serve_iteration_def ParseRequest_def Apply_def writeError_def WriteTo_def
  WriteError_def NewResponder_def set_quit_def trackCommand_def

lemma serve_loop_continue:
  "serve_iteration srv cl = ((s1, c1), None) \<Longrightarrow> serve_loop srv cl = serve_loop s1 c1"
  by (subst serve_loop.simps) simp

lemma serve_loop_return:
  "serve_iteration srv cl = (st, Some x) \<Longrightarrow> serve_loop srv cl = (st, x)"
  by (subst serve_loop.simps) simp

lemma serve_loop_induct:
  assumes step: "\<And>srv cl. (\<And>s1 c1. serve_iteration srv cl = ((s1, c1), None) \<Longrightarrow> P s1 c1)
                   \<Longrightarrow> P srv cl"
  shows "P srv cl"
proof (induction srv cl rule: serve_loop.induct)
  case (1 srv cl)
  show ?case
  proof (rule step)
    fix s1 c1
    assume "serve_iteration srv cl = ((s1, c1), None)"
    then show "P s1 c1"
      using "1.IH" [of "(s1, c1)" None s1 c1] by simp
  qed
qed

lemma serve_iteration_invariants:
  "serve_iteration srv cl = ((srv', cl'), x) \<Longrightarrow>
   commands srv' = commands srv \<and> clients srv' = clients srv \<and> cid cl' = cid cl \<and>
   wfails (conn cl') = wfails (conn cl) \<and> closed (conn cl') = closed (conn cl)"
  by (auto simp: serve_defs Let_def
        split: list.splits sum.splits option.splits if_splits prod.splits)

lemma serve_loop_invariants:
  "serve_loop srv cl = ((srv', cl'), x) \<Longrightarrow>
   commands srv' = commands srv \<and> clients srv' = clients srv \<and> cid cl' = cid cl \<and>
   wfails (conn cl') = wfails (conn cl) \<and> closed (conn cl') = closed (conn cl)"
proof (induction srv cl rule: serve_loop_induct)
  case (1 srv cl)
  obtain s1 c1 y where it: "serve_iteration srv cl = ((s1, c1), y)"
    by (metis surj_pair)
  note inv = serve_iteration_invariants [OF it]
  show ?case
  proof (cases y)
    case None
    with it have "serve_loop srv cl = serve_loop s1 c1"
      by (simp add: serve_loop_continue)
    with "1.prems" have "serve_loop s1 c1 = ((srv', cl'), x)" by simp
    from "1.IH" [OF _ this] it None inv show ?thesis by simp
  next
    case (Some z)
    with it have "serve_loop srv cl = ((s1, c1), z)"
      by (simp add: serve_loop_return)
    with "1.prems" inv show ?thesis by simp
  qed
qed

lemma serve_iteration_log:
  "serve_iteration srv cl = ((s1, c1), y) \<Longrightarrow>
   \<exists>evs. log (conn c1) = log (conn cl) @ Decode (next_unit (conn cl)) # evs \<and> Closed \<notin> set evs"
  by (auto simp: serve_defs next_unit_def Let_def
        split: list.splits sum.splits option.splits if_splits prod.splits)

lemma serve_loop_log:
  "serve_loop srv cl = ((s', c'), x) \<Longrightarrow>
   \<exists>evs. log (conn c') = log (conn cl) @ Decode (next_unit (conn cl)) # evs \<and> Closed \<notin> set evs"
proof (induction srv cl rule: serve_loop_induct)
  case (1 srv cl)
  obtain s1 c1 y where it: "serve_iteration srv cl = ((s1, c1), y)"
    by (metis surj_pair)
  from serve_iteration_log [OF it] obtain evs where
    evs: "log (conn c1) = log (conn cl) @ Decode (next_unit (conn cl)) # evs" "Closed \<notin> set evs"
    by blast
  show ?case
  proof (cases y)
    case None
    with it have "serve_loop srv cl = serve_loop s1 c1"
      by (simp add: serve_loop_continue)
    with "1.prems" have "serve_loop s1 c1 = ((s', c'), x)" by simp
    from "1.IH" [OF _ this] it None obtain evs' where
      "log (conn c') = log (conn c1) @ Decode (next_unit (conn c1)) # evs'" "Closed \<notin> set evs'"
      by blast
    with evs have "log (conn c') =
        log (conn cl) @ Decode (next_unit (conn cl)) # (evs @ Decode (next_unit (conn c1)) # evs')"
      and "Closed \<notin> set (evs @ Decode (next_unit (conn c1)) # evs')"
      by simp_all
    then show ?thesis by blast
  next
    case (Some z)
    with it have "serve_loop srv cl = ((s1, c1), z)"
      by (simp add: serve_loop_return)
    with "1.prems" evs show ?thesis by auto
  qed
qed

lemma serveClient_eq:
  assumes lp: "serve_loop (registered srv cl) cl = ((s, c), x)"
  shows "serveClient srv cl =
           (s\<lparr>clients := filter (\<lambda>(j, x). j \<noteq> cid cl) (clients s)\<rparr>, client_close c, x)"
proof -
  from serve_loop_invariants [OF lp]
  have "clients s = Put (clients srv) cl" and "cid c = cid cl"
    by (simp_all add: registered_def)
  then have "cid c \<in> fst ` set (clients s)"
    by (simp add: Put_def)
  with lp \<open>cid c = cid cl\<close> show ?thesis
    by (simp add: serveClient_def Let_def clients_Close_def registered_def)
qed

lemmas eval_defs = serveClient_def serve_loop.simps serve_iteration_def ParseRequest_def Apply_def
  writeError_def WriteTo_def WriteError_def NewResponder_def set_quit_def trackCommand_def
  Put_def clients_Close_def client_close_def conn_Close_def onConnect_def onCommand_def
  demo_server_def server0_def client_with_def client0_def conn0_def Handle_def ToLower_def ascii_def
  to_lower_char_def ping_def bye_def boom_def Let_def UnknownCommand_def

subsection \<open>Errors of dispatch\<close>

text \<open>
  Claim C4. For every request whose name is not in the command table, \<open>Apply\<close> returns
  the unknown-command error, which is a \<open>ClientError\<close>; the serve loop writes an error
  reply holding it (the outcome of that write is not looked at) and goes on to the next
  decode instead of closing: in the history of the transport when the loop has returned,
  the decode of the request and the write of the error reply are followed by the decode
  of the next unit, and the close comes only after it.
\<close>

theorem unknown_command_keeps_connection:
  assumes "inbox (conn cl) = Inr (nm, as) # rest" and "commands srv nm = None"
  defines "c1 \<equiv> (conn cl)\<lparr>inbox := rest, log := log (conn cl) @ [Decode (Inr (nm, as))]\<rparr>"
  defines "cl' \<equiv> cl\<lparr>conn := fst (WriteTo (WriteError NewResponder (UnknownCommand nm)) c1)\<rparr>"
  defines "w \<equiv> (case wfails (conn cl) (nwrites (conn cl)) of
              None \<Rightarrow> Wrote (ErrorReply (UnknownCommand nm))
            | Some e \<Rightarrow> WriteFailed (ErrorReply (UnknownCommand nm)) e)"
  defines "nxt \<equiv> (case rest of [] \<Rightarrow> Inl EOF | d # ds \<Rightarrow> d)"
  shows "snd (snd (Apply srv \<lparr>name = nm, args = as, client = Some (cl\<lparr>conn := c1\<rparr>)\<rparr>)) =
           (None, Some (UnknownCommand nm)) \<and>
         is_ClientError (UnknownCommand nm) \<and>
         serve_iteration srv cl = ((srv, cl'), None) \<and>
         serve_loop srv cl = serve_loop srv cl' \<and>
         closed (conn cl') = closed (conn cl) \<and>
         log (conn cl') = log (conn cl) @ [Decode (Inr (nm, as)), w] \<and>
         (\<exists>s' c' x evs. serve_loop srv cl = ((s', c'), x) \<and>
            log (conn c') = log (conn cl) @ [Decode (Inr (nm, as)), w, Decode nxt] @ evs \<and>
            Closed \<notin> set evs) \<and>
         (\<exists>s' c' x evs. serveClient srv cl = (s', c', x) \<and>
            log (conn c') =
              log (conn cl) @ [Decode (Inr (nm, as)), w, Decode nxt] @ evs @ [Closed] \<and>
            Closed \<notin> set evs)"
proof -
  have uc: "is_ClientError (UnknownCommand nm)" "UnknownCommand nm \<noteq> EOF"
    by (simp_all add: UnknownCommand_def)
  have it: "serve_iteration s cl = ((s, cl'), None)" if "commands s nm = None" for s
    using assms(1) that uc unfolding cl'_def c1_def
    by (simp add: serve_iteration_def ParseRequest_def Apply_def writeError_def Let_def)
  have lg: "log (conn cl') = log (conn cl) @ [Decode (Inr (nm, as)), w]"
    unfolding cl'_def c1_def w_def
    by (simp add: WriteTo_def WriteError_def split: option.splits)
  have cd: "closed (conn cl') = closed (conn cl)"
    unfolding cl'_def c1_def
    by (simp add: WriteTo_def WriteError_def split: option.splits)
  have nx: "next_unit (conn cl') = nxt"
    unfolding cl'_def c1_def nxt_def
    by (simp add: next_unit_def WriteTo_def WriteError_def split: option.splits)
  have loop: "\<exists>s' c' x evs. serve_loop s cl = ((s', c'), x) \<and>
            log (conn c') = log (conn cl) @ [Decode (Inr (nm, as)), w, Decode nxt] @ evs \<and>
            Closed \<notin> set evs" if "commands s nm = None" for s
  proof -
    obtain s' c' x where lp: "serve_loop s cl' = ((s', c'), x)"
      by (metis surj_pair)
    from serve_loop_log [OF lp] nx lg obtain evs where
      "log (conn c') = log (conn cl) @ [Decode (Inr (nm, as)), w, Decode nxt] @ evs"
      "Closed \<notin> set evs"
      by auto
    with lp serve_loop_continue [OF it [OF that]] show ?thesis by auto
  qed
  have sc: "\<exists>s' c' x evs. serveClient srv cl = (s', c', x) \<and>
            log (conn c') =
              log (conn cl) @ [Decode (Inr (nm, as)), w, Decode nxt] @ evs @ [Closed] \<and>
            Closed \<notin> set evs"
  proof -
    have "commands (registered srv cl) nm = None"
      using assms(2) by (simp add: registered_def)
    from loop [OF this] obtain s' c' x evs where
      lp: "serve_loop (registered srv cl) cl = ((s', c'), x)"
      and l: "log (conn c') = log (conn cl) @ [Decode (Inr (nm, as)), w, Decode nxt] @ evs"
      and n: "Closed \<notin> set evs"
      by blast
    from l have "log (conn (client_close c')) =
        log (conn cl) @ [Decode (Inr (nm, as)), w, Decode nxt] @ evs @ [Closed]"
      by (simp add: client_close_def conn_Close_def)
    with serveClient_eq [OF lp] n show ?thesis by blast
  qed
  show ?thesis
    using assms(2) serve_loop_continue [OF it [OF assms(2)]] it [OF assms(2)] uc(1) lg cd
      loop [OF assms(2)] sc
    by (simp add: Apply_def)
qed

theorem unknown_command_keeps_connection_witness:
  "inbox (conn (client_with [Inr (''nope'', []), Inr (''ping'', [])])) =
     Inr (''nope'', []) # [Inr (''ping'', [])] \<and>
   commands demo_server ''nope'' = None \<and>
   snd (serve_iteration demo_server (client_with [Inr (''nope'', []), Inr (''ping'', [])])) = None \<and>
   log (conn (snd (fst (serve_iteration demo_server
          (client_with [Inr (''nope'', []), Inr (''ping'', [])]))))) =
     [Decode (Inr (''nope'', [])), Wrote (ErrorReply (UnknownCommand ''nope''))] \<and>
   (\<exists>s' c' x evs.
      serveClient demo_server (client_with [Inr (''nope'', []), Inr (''ping'', [])]) = (s', c', x) \<and>
      log (conn c') =
        [Decode (Inr (''nope'', [])), Wrote (ErrorReply (UnknownCommand ''nope'')),
         Decode (Inr (''ping'', []))] @ evs @ [Closed] \<and>
      Closed \<notin> set evs)"
proof -
  have h1: "inbox (conn (client_with [Inr (''nope'', []), Inr (''ping'', [])])) =
     Inr (''nope'', []) # [Inr (''ping'', [])]"
    by (simp add: client_with_def client0_def conn0_def)
  have h2: "commands demo_server ''nope'' = None"
    by (simp add: demo_server_def Handle_def ToLower_def ascii_def to_lower_char_def server0_def)
  from unknown_command_keeps_connection [OF h1 h2] h1 h2 show ?thesis
    by (simp add: client_with_def client0_def conn0_def WriteTo_def WriteError_def)
qed

text \<open>
  Claim C1, as amended. For every request whose handler returns a non-nil error, the
  serve loop leaves aside the responder that \<open>Apply\<close> returned and writes a fresh
  responder that holds that error only; when the error is \<open>io.EOF\<close> it writes nothing.
  The loop goes on when the error is a \<open>ClientError\<close> and returns otherwise.
\<close>

theorem handler_error_discards_fragments:
  assumes "inbox (conn cl) = Inr (nm, as) # rest" and "commands srv nm = Some h"
  defines "c1 \<equiv> (conn cl)\<lparr>inbox := rest, log := log (conn cl) @ [Decode (Inr (nm, as))]\<rparr>"
  assumes "h NewResponder \<lparr>name = nm, args = as,
              client = Some (trackCommand (cl\<lparr>conn := c1\<rparr>) nm)\<rparr> = (res, q, Some e)"
  shows "log (conn (snd (fst (serve_iteration srv cl)))) =
           log (conn cl) @ [Decode (Inr (nm, as))] @
           (if e = EOF then []
            else [case wfails (conn cl) (nwrites (conn cl)) of
                    None \<Rightarrow> Wrote (ErrorReply e)
                  | Some we \<Rightarrow> WriteFailed (ErrorReply e) we]) \<and>
         snd (serve_iteration srv cl) = (if is_ClientError e then None else Some (Fatal e))"
  using assms unfolding c1_def
  by (simp add: serve_defs Let_def split: option.splits)

theorem handler_error_discards_fragments_witness:
  "inbox (conn (client_with [Inr (''boom'', [])])) = Inr (''boom'', []) # [] \<and>
   commands demo_server ''boom'' = Some boom \<and>
   log (conn (snd (fst (serve_iteration demo_server (client_with [Inr (''boom'', [])]))))) =
     [Decode (Inr (''boom'', [])), Wrote (ErrorReply (OtherError ''boom''))] \<and>
   snd (serve_iteration demo_server (client_with [Inr (''boom'', [])])) =
     Some (Fatal (OtherError ''boom''))"
proof -
  have h1: "inbox (conn (client_with [Inr (''boom'', [])])) = Inr (''boom'', []) # []"
    by (simp add: client_with_def client0_def conn0_def)
  have h2: "commands demo_server ''boom'' = Some boom"
    by (simp add: demo_server_def Handle_def ToLower_def ascii_def to_lower_char_def)
  have h3: "boom NewResponder \<lparr>name = ''boom'', args = [],
      client = Some (trackCommand (client_with [Inr (''boom'', [])]
        \<lparr>conn := (conn (client_with [Inr (''boom'', [])]))
           \<lparr>inbox := [], log := log (conn (client_with [Inr (''boom'', [])])) @
               [Decode (Inr (''boom'', []))]\<rparr>\<rparr>) ''boom'')\<rparr> =
      (Replies [''partial''], False, Some (OtherError ''boom''))"
    by (simp add: boom_def NewResponder_def)
  from handler_error_discards_fragments [OF h1 h2 h3] h1 h2 show ?thesis
    by (simp add: client_with_def client0_def conn0_def)
qed

text \<open>
  The claim as it was stated fails for a handler that writes a fragment and returns an
  error: the fragment is not among the replies written.
\<close>

theorem handler_error_fragments_counterexample:
  "boom NewResponder \<lparr>name = ''boom'', args = [], client = None\<rparr> =
     (Replies [''partial''], False, Some (OtherError ''boom'')) \<and>
   written (log (conn (fst (snd (serveClient demo_server (client_with [Inr (''boom'', [])])))))) =
     [ErrorReply (OtherError ''boom'')] \<and>
   Replies [''partial''] \<notin> set (written (log (conn (fst (snd
       (serveClient demo_server (client_with [Inr (''boom'', [])])))))))"
  by (simp add: eval_defs)

subsection \<open>End of stream\<close>

text \<open>
  Claim C9. When the decode of a request yields the end of the stream, the serve loop
  returns, the transport is closed, and nothing is written: the history grows by the
  decode and the close only, and the number of writes is as before.
\<close>

theorem eof_closes_silently:
  assumes "fst (ParseRequest (conn cl)) = Inl EOF"
  shows "(\<exists>cl'. serve_loop srv cl = ((srv, cl'), DecodeFailed EOF) \<and>
            log (conn cl') = log (conn cl) @ [Decode (Inl EOF)] \<and>
            nwrites (conn cl') = nwrites (conn cl)) \<and>
         (\<exists>srv' cl'. serveClient srv cl = (srv', cl', DecodeFailed EOF) \<and>
            log (conn cl') = log (conn cl) @ [Decode (Inl EOF), Closed] \<and>
            nwrites (conn cl') = nwrites (conn cl) \<and> closed (conn cl'))"
proof -
  let ?c1 = "snd (ParseRequest (conn cl))"
  from assms have it: "serve_iteration s cl =
      ((s, cl\<lparr>conn := ?c1\<rparr>), Some (DecodeFailed EOF))" for s
    by (cases "ParseRequest (conn cl)") (simp add: serve_iteration_def writeError_def)
  from assms have c1: "log ?c1 = log (conn cl) @ [Decode (Inl EOF)]"
    "nwrites ?c1 = nwrites (conn cl)"
    by (auto simp: ParseRequest_def split: list.splits sum.splits)
  from serve_loop_return [OF it] c1
  have "\<exists>cl'. serve_loop srv cl = ((srv, cl'), DecodeFailed EOF) \<and>
            log (conn cl') = log (conn cl) @ [Decode (Inl EOF)] \<and>
            nwrites (conn cl') = nwrites (conn cl)"
    by simp
  moreover from serveClient_eq [OF serve_loop_return [OF it]] c1
  have "\<exists>srv' cl'. serveClient srv cl = (srv', cl', DecodeFailed EOF) \<and>
            log (conn cl') = log (conn cl) @ [Decode (Inl EOF), Closed] \<and>
            nwrites (conn cl') = nwrites (conn cl) \<and> closed (conn cl')"
    by (simp add: client_close_def conn_Close_def)
  ultimately show ?thesis ..
qed

theorem eof_closes_silently_witness:
  "fst (ParseRequest (conn (client_with []))) = Inl EOF \<and>
   (\<exists>cl'. serve_loop demo_server (client_with []) = ((demo_server, cl'), DecodeFailed EOF) \<and>
      log (conn cl') = [Decode (Inl EOF)] \<and> nwrites (conn cl') = 0) \<and>
   (\<exists>srv' cl'. serveClient demo_server (client_with []) = (srv', cl', DecodeFailed EOF) \<and>
      log (conn cl') = [Decode (Inl EOF), Closed] \<and>
      nwrites (conn cl') = 0 \<and> closed (conn cl'))"
  using eof_closes_silently [of "client_with []" demo_server]
  by (simp add: ParseRequest_def client_with_def conn0_def client0_def)

subsection \<open>Pipelining\<close>

lemma benign_iteration:
  assumes ib: "inbox (conn cl) = Inr f # rest"
    and wr: "wfails (conn cl) (nwrites (conn cl)) = None"
    and nq: "\<not> quit cl"
    and bn: "\<forall>h. commands srv (fst f) = Some h \<longrightarrow> benign h"
  shows "\<exists>srv' cl' r. serve_iteration srv cl = ((srv', cl'), None) \<and>
           inbox (conn cl') = rest \<and> \<not> quit cl' \<and> reply_to srv f r \<and>
           log (conn cl') = log (conn cl) @ [Decode (Inr f), Wrote r]"
proof (cases "commands srv (fst f)")
  case None
  have "is_ClientError (UnknownCommand (fst f))" "UnknownCommand (fst f) \<noteq> EOF"
    by (simp_all add: UnknownCommand_def)
  with None ib wr nq show ?thesis
    by (simp add: serve_iteration_def ParseRequest_def Apply_def writeError_def WriteTo_def
          WriteError_def reply_to_def Let_def)
next
  case (Some h)
  define req where "req = \<lparr>name = fst f, args = snd f,
    client = Some (trackCommand (cl\<lparr>conn := (conn cl)\<lparr>inbox := rest,
      log := log (conn cl) @ [Decode (Inr f)]\<rparr>\<rparr>) (fst f))\<rparr>"
  obtain r q e where hr: "h NewResponder req = (r, q, e)"
    by (metis surj_pair)
  from bn Some have "benign h" by simp
  with hr have q: "\<not> q" and ce: "\<forall>x. e = Some x \<longrightarrow> is_ClientError x"
    unfolding benign_def by blast+
  have e: "e = None \<or> (\<exists>m. e = Some (ClientError m))"
  proof (cases e)
    case None
    then show ?thesis by simp
  next
    case (Some x)
    with ce have "is_ClientError x" by simp
    then have "\<exists>m. x = ClientError m" by (cases x) simp_all
    with Some show ?thesis by simp
  qed
  have rt: "reply_to srv f (case e of None \<Rightarrow> r | Some x \<Rightarrow> ErrorReply x)"
    using Some hr by (auto simp: reply_to_def req_def intro!: exI [of _ req])
  from e show ?thesis
  proof
    assume "e = None"
    with Some ib wr nq hr q rt show ?thesis
      unfolding req_def by (simp add: serve_defs Let_def)
  next
    assume "\<exists>m. e = Some (ClientError m)"
    then obtain m where "e = Some (ClientError m)" ..
    with Some ib wr nq hr q rt show ?thesis
      unfolding req_def by (simp add: serve_defs Let_def)
  qed
qed

lemma pipelined_loop:
  assumes "inbox (conn cl) = map Inr fs"
    and "\<forall>k. wfails (conn cl) k = None"
    and "\<not> quit cl"
    and "\<forall>f\<in>set fs. \<forall>h. commands srv (fst f) = Some h \<longrightarrow> benign h"
  shows "\<exists>srv' cl' rs. serve_loop srv cl = ((srv', cl'), DecodeFailed EOF) \<and>
           length rs = length fs \<and> list_all2 (reply_to srv) fs rs \<and>
           log (conn cl') = log (conn cl) @ exchange fs rs @ [Decode (Inl EOF)]"
  using assms
proof (induction fs arbitrary: srv cl)
  case Nil
  then have "serve_iteration srv cl =
      ((srv, cl\<lparr>conn := (conn cl)\<lparr>log := log (conn cl) @ [Decode (Inl EOF)]\<rparr>\<rparr>),
       Some (DecodeFailed EOF))"
    by (simp add: serve_iteration_def ParseRequest_def writeError_def)
  from serve_loop_return [OF this] show ?case
    by simp
next
  case (Cons f fs)
  from Cons.prems have ib: "inbox (conn cl) = Inr f # map Inr fs"
    and wr: "wfails (conn cl) (nwrites (conn cl)) = None"
    and bn: "\<forall>h. commands srv (fst f) = Some h \<longrightarrow> benign h"
    by simp_all
  from benign_iteration [OF ib wr Cons.prems(3) bn]
  obtain s1 c1 r where it: "serve_iteration srv cl = ((s1, c1), None)"
    and ib1: "inbox (conn c1) = map Inr fs" and nq1: "\<not> quit c1"
    and rt: "reply_to srv f r"
    and lg: "log (conn c1) = log (conn cl) @ [Decode (Inr f), Wrote r]"
    by blast
  note inv = serve_iteration_invariants [OF it]
  from inv Cons.prems(2) have wr1: "\<forall>k. wfails (conn c1) k = None" by simp
  from inv Cons.prems(4)
  have bn1: "\<forall>f\<in>set fs. \<forall>h. commands s1 (fst f) = Some h \<longrightarrow> benign h" by simp
  from Cons.IH [OF ib1 wr1 nq1 bn1]
  obtain s' c' rs where lp: "serve_loop s1 c1 = ((s', c'), DecodeFailed EOF)"
    and len: "length rs = length fs" and all: "list_all2 (reply_to s1) fs rs"
    and lg': "log (conn c') = log (conn c1) @ exchange fs rs @ [Decode (Inl EOF)]"
    by blast
  from inv have "reply_to s1 = reply_to srv"
    by (intro ext) (simp add: reply_to_def)
  with all rt have "list_all2 (reply_to srv) (f # fs) (r # rs)" by simp
  moreover from lg lg' have "log (conn c') =
      log (conn cl) @ exchange (f # fs) (r # rs) @ [Decode (Inl EOF)]" by simp
  moreover from lp it have "serve_loop srv cl = ((s', c'), DecodeFailed EOF)"
    by (simp add: serve_loop_continue)
  ultimately show ?case
    using len by (metis length_Cons)
qed

text \<open>
  Claim C5, as amended. For every sequence of N well-formed pipelined requests on one
  connection, provided that every write succeeds, that the quit flag is not set at the
  start and that no handler of a requested name sets the quit flag or returns an error
  that is not a \<open>ClientError\<close>: the serve loop processes the requests in arrival order
  and writes exactly N replies, one per request and in the same order, each reply
  written in full before the next decode; then it meets the end of the stream and closes.
\<close>

theorem pipelined_replies_in_order:
  assumes "inbox (conn cl) = map Inr fs"
    and "\<forall>k. wfails (conn cl) k = None"
    and "\<not> quit cl"
    and "\<forall>f\<in>set fs. \<forall>h. commands srv (fst f) = Some h \<longrightarrow> benign h"
  shows "\<exists>srv' cl' rs. serveClient srv cl = (srv', cl', DecodeFailed EOF) \<and>
           length rs = length fs \<and> list_all2 (reply_to srv) fs rs \<and>
           log (conn cl') = log (conn cl) @ exchange fs rs @ [Decode (Inl EOF), Closed]"
proof -
  from assms(4)
  have "\<forall>f\<in>set fs. \<forall>h. commands (registered srv cl) (fst f) = Some h \<longrightarrow> benign h"
    by (simp add: registered_def)
  from pipelined_loop [OF assms(1-3) this]
  obtain s c rs where lp: "serve_loop (registered srv cl) cl = ((s, c), DecodeFailed EOF)"
    and len: "length rs = length fs" and all: "list_all2 (reply_to (registered srv cl)) fs rs"
    and lg: "log (conn c) = log (conn cl) @ exchange fs rs @ [Decode (Inl EOF)]"
    by blast
  have "reply_to (registered srv cl) = reply_to srv"
    by (intro ext) (simp add: reply_to_def registered_def)
  with all have "list_all2 (reply_to srv) fs rs" by simp
  moreover from lg have "log (conn (client_close c)) =
      log (conn cl) @ exchange fs rs @ [Decode (Inl EOF), Closed]"
    by (simp add: client_close_def conn_Close_def)
  ultimately show ?thesis
    using serveClient_eq [OF lp] len by blast
qed

theorem pipelined_replies_in_order_witness:
  "inbox (conn (client_with (map Inr [(''ping'', []), (''nope'', []), (''ping'', [''x''])]))) =
     map Inr [(''ping'', []), (''nope'', []), (''ping'', [''x''])] \<and>
   \<not> quit (client_with (map Inr [(''ping'', []), (''nope'', []), (''ping'', [''x''])])) \<and>
   (\<exists>srv' cl' rs.
      serveClient demo_server
        (client_with (map Inr [(''ping'', []), (''nope'', []), (''ping'', [''x''])])) =
        (srv', cl', DecodeFailed EOF) \<and>
      length rs = 3 \<and>
      list_all2 (reply_to demo_server) [(''ping'', []), (''nope'', []), (''ping'', [''x''])] rs \<and>
      log (conn cl') =
        exchange [(''ping'', []), (''nope'', []), (''ping'', [''x''])] rs @
        [Decode (Inl EOF), Closed])"
proof -
  let ?fs = "[(''ping'', []), (''nope'', []), (''ping'', [''x''])] :: frame list"
  have h1: "inbox (conn (client_with (map Inr ?fs))) = map Inr ?fs"
    by (simp add: client_with_def client0_def conn0_def)
  have h2: "\<forall>k. wfails (conn (client_with (map Inr ?fs))) k = None"
    by (simp add: client_with_def client0_def conn0_def)
  have h3: "\<not> quit (client_with (map Inr ?fs))"
    by (simp add: client_with_def client0_def conn0_def)
  have "benign ping"
    by (simp add: benign_def ping_def)
  then have h4: "\<forall>f\<in>set ?fs. \<forall>h. commands demo_server (fst f) = Some h \<longrightarrow> benign h"
    by (simp add: demo_server_def Handle_def ToLower_def ascii_def to_lower_char_def server0_def)
  have lg: "log (conn (client_with (map Inr ?fs))) = []"
    by (simp add: client_with_def client0_def conn0_def)
  from pipelined_replies_in_order [OF h1 h2 h3 h4]
  obtain srv' cl' rs where
    sc: "serveClient demo_server (client_with (map Inr ?fs)) = (srv', cl', DecodeFailed EOF)"
    and len: "length rs = length ?fs"
    and rt: "list_all2 (reply_to demo_server) ?fs rs"
    and lg': "log (conn cl') = log (conn (client_with (map Inr ?fs))) @ exchange ?fs rs @
           [Decode (Inl EOF), Closed]"
    by blast
  from len have len3: "length rs = 3" by simp
  from lg' lg have "log (conn cl') = exchange ?fs rs @ [Decode (Inl EOF), Closed]" by simp
  with sc len3 rt h1 h3 show ?thesis
    by blast
qed

text \<open>
  The claim as it was stated fails when the first of two requests sets the quit flag: one
  reply is written for two requests.
\<close>

theorem pipelined_quit_counterexample:
  "written (log (conn (fst (snd (serveClient demo_server
       (client_with (map Inr [(''quit'', []), (''ping'', [])]))))))) = [Replies [''OK'']] \<and>
   length (written (log (conn (fst (snd (serveClient demo_server
       (client_with (map Inr [(''quit'', []), (''ping'', [])])))))))) \<noteq>
   length [(''quit'', []), (''ping'', [])]"
  by (simp add: eval_defs)

subsection \<open>The quit flag\<close>

lemma quit_exit_iteration:
  assumes "serve_iteration srv cl = ((srv', cl'), Some Quit)"
  shows "quit cl' \<and>
         (\<exists>f r h req q. log (conn cl') = log (conn cl) @ [Decode (Inr f), Wrote r] \<and>
            commands srv (fst f) = Some h \<and> name req = fst f \<and> args req = snd f \<and>
            h NewResponder req = (r, q, None))"
proof -
  from assms obtain nm as rest where ib: "inbox (conn cl) = Inr (nm, as) # rest"
    by (auto simp: serve_defs Let_def
          split: list.splits sum.splits option.splits if_splits prod.splits)
  define req where "req = \<lparr>name = nm, args = as,
    client = Some (trackCommand (cl\<lparr>conn := (conn cl)\<lparr>inbox := rest,
      log := log (conn cl) @ [Decode (Inr (nm, as))]\<rparr>\<rparr>) nm)\<rparr>"
  from assms ib obtain h where h: "commands srv nm = Some h"
    by (auto simp: serve_defs Let_def split: option.splits if_splits prod.splits)
  obtain r q e where hr: "h NewResponder req = (r, q, e)"
    by (metis surj_pair)
  from assms ib h hr have "e = None \<and> quit cl' \<and>
      log (conn cl') = log (conn cl) @ [Decode (Inr (nm, as)), Wrote r]"
    unfolding req_def
    by (auto simp: serve_defs Let_def split: option.splits if_splits prod.splits)
  moreover have "name req = nm" "args req = as"
    by (simp_all add: req_def)
  ultimately show ?thesis
    using h hr by (metis fst_conv snd_conv)
qed

text \<open>
  The way out through the quit flag is taken: a handler that sets the flag and returns no
  error ends the loop once its reply has been written.
\<close>

lemma quit_flag_closes_after_write:
  assumes "inbox (conn cl) = Inr (nm, as) # rest" and "commands srv nm = Some h"
    and "h NewResponder \<lparr>name = nm, args = as,
           client = Some (trackCommand
             (cl\<lparr>conn := (conn cl)\<lparr>inbox := rest,
                   log := log (conn cl) @ [Decode (Inr (nm, as))]\<rparr>\<rparr>) nm)\<rparr> = (r, True, None)"
    and "wfails (conn cl) (nwrites (conn cl)) = None"
  shows "snd (serve_iteration srv cl) = Some Quit \<and>
         log (conn (snd (fst (serve_iteration srv cl)))) =
           log (conn cl) @ [Decode (Inr (nm, as)), Wrote r]"
  using assms by (simp add: serve_defs Let_def)

text \<open>
  Whenever \<open>serveClient\<close> returns through the quit flag, the flag is set and the last
  events of the transport are the decode of a request, the successful write of the
  responder that its handler produced without an error, and the close.
\<close>

lemma quit_exit_after_reply_written:
  assumes "serveClient srv cl = (srv', cl', Quit)"
  shows "quit cl' \<and> closed (conn cl') \<and>
         (\<exists>evs f r h req q. log (conn cl') = evs @ [Decode (Inr f), Wrote r, Closed] \<and>
            commands srv (fst f) = Some h \<and> name req = fst f \<and> args req = snd f \<and>
            h NewResponder req = (r, q, None))"
proof -
  have loop: "serve_loop s c = ((s', c'), Quit) \<Longrightarrow>
      quit c' \<and>
      (\<exists>evs f r h req q. log (conn c') = evs @ [Decode (Inr f), Wrote r] \<and>
         commands s (fst f) = Some h \<and> name req = fst f \<and> args req = snd f \<and>
         h NewResponder req = (r, q, None))" for s c s' c'
  proof (induction s c rule: serve_loop_induct)
    case (1 s c)
    obtain s1 c1 y where it: "serve_iteration s c = ((s1, c1), y)"
      by (metis surj_pair)
    show ?case
    proof (cases y)
      case None
      with it have "serve_loop s c = serve_loop s1 c1"
        by (simp add: serve_loop_continue)
      with "1.prems" have "serve_loop s1 c1 = ((s', c'), Quit)" by simp
      from "1.IH" [OF _ this] it None serve_iteration_invariants [OF it]
      show ?thesis by simp
    next
      case (Some z)
      with it have "serve_loop s c = ((s1, c1), z)"
        by (simp add: serve_loop_return)
      with "1.prems" have "s1 = s'" "c1 = c'" "z = Quit" by simp_all
      with it Some have "serve_iteration s c = ((s', c'), Some Quit)" by simp
      from quit_exit_iteration [OF this] show ?thesis by blast
    qed
  qed
  obtain s c y where lp: "serve_loop (registered srv cl) cl = ((s, c), y)"
    by (metis surj_pair)
  from serveClient_eq [OF lp] assms have y: "y = Quit" and cl': "cl' = client_close c"
    by simp_all
  from loop [OF lp [unfolded y]] have "quit c" and
    "\<exists>evs f r h req q. log (conn c) = evs @ [Decode (Inr f), Wrote r] \<and>
         commands srv (fst f) = Some h \<and> name req = fst f \<and> args req = snd f \<and>
         h NewResponder req = (r, q, None)"
    by (simp_all add: registered_def)
  then show ?thesis
    unfolding cl' by (auto simp: client_close_def conn_Close_def)
qed




section \<open>Shutdown\<close>

text \<open>
  Claim C7. \<open>Close\<close> is to return the listener-close error that occurred. With a TCP
  listener whose \<open>Close\<close> fails, no unix listener and no session, \<open>Close\<close> closes the
  listener and returns no error: the test before the last assignment looks at the
  accumulated error and not at the result of \<open>Clear\<close>, which then replaces it.
\<close>

theorem Close_drops_listener_error:
  "Close (server0\<lparr>tcp := Some tcp_failing\<rparr>) = (server0, [ListenerClosed tcp_failing], None)"
  by (simp add: Close_def Clear_def server0_def tcp_failing_def)

text \<open>
  The rest of the claim holds: a second \<open>Close\<close> does nothing; both listeners are closed
  when present and then every registered session; and the error returned is what
  \<open>Clear\<close> returned if a listener failed to close, and nil otherwise.
\<close>

lemma Close_idempotent:
  "Close (fst (Close srv)) = (fst (Close srv), [], None)"
  by (simp add: Close_def Clear_def split: option.splits prod.splits)

lemma Close_effects:
  "fst (snd (Close srv)) =
     map ListenerClosed (case tcp srv of None \<Rightarrow> [] | Some l \<Rightarrow> [l]) @
     map ListenerClosed (case unix srv of None \<Rightarrow> [] | Some l \<Rightarrow> [l]) @
     map (\<lambda>(i, c). SessionClosed (client_close c)) (clients srv) \<and>
   tcp (fst (Close srv)) = None \<and> unix (fst (Close srv)) = None \<and>
   clients (fst (Close srv)) = []"
  by (simp add: Close_def Clear_def split: option.splits prod.splits)

lemma Close_error:
  "snd (snd (Close srv)) =
     (if (\<exists>l e. (tcp srv = Some l \<or> unix srv = Some l) \<and> lclose_err l = Some e)
      then snd (snd (Clear (clients srv))) else None)"
  by (auto simp: Close_def Clear_def split: option.splits prod.splits)

section \<open>The socket path\<close>

text \<open>
  Claim C8, as amended. When \<open>os.Stat\<close> succeeds on the socket path: a file at the path
  that is not a directory (a stale socket or any other file) is removed before the bind,
  and the bind then succeeds; a directory at the path is not removed and the bind fails.
\<close>

theorem listenUnix_removes_non_directory:
  assumes "stat_err fs (srv_Socket srv) = None" and "nodes fs (srv_Socket srv) = Some k"
  shows "(k \<noteq> Directory \<and> remove_err fs (srv_Socket srv) = None \<longrightarrow>
            listenUnix srv fs =
              net_Listen_unix (fst (os_RemoveAll fs (srv_Socket srv))) (srv_Socket srv) \<and>
            nodes (fst (os_RemoveAll fs (srv_Socket srv))) (srv_Socket srv) = None \<and>
            fst (listenUnix srv fs) =
              Listening \<lparr>network = ''unix'', laddr = srv_Socket srv, lclose_err = None\<rparr> \<and>
            nodes (snd (listenUnix srv fs)) (srv_Socket srv) = Some SocketFile) \<and>
         (k = Directory \<longrightarrow>
            listenUnix srv fs = (Failed (OtherError ''bind: address already in use''), fs))"
  using assms
  by (simp add: listenUnix_def os_Stat_def os_IsNotExist_def IsDir_def os_RemoveAll_def
        net_Listen_unix_def)

theorem listenUnix_removes_non_directory_witness:
  "stat_err fs_regular (srv_Socket server0) = None \<and>
   nodes fs_regular (srv_Socket server0) = Some RegularFile \<and>
   remove_err fs_regular (srv_Socket server0) = None \<and>
   fst (listenUnix server0 fs_regular) =
     Listening \<lparr>network = ''unix'', laddr = ''/tmp/redeo.sock'', lclose_err = None\<rparr> \<and>
   stat_err fs_directory (srv_Socket server0) = None \<and>
   nodes fs_directory (srv_Socket server0) = Some Directory \<and>
   listenUnix server0 fs_directory =
     (Failed (OtherError ''bind: address already in use''), fs_directory)"
  using listenUnix_removes_non_directory [of fs_regular server0 RegularFile]
        listenUnix_removes_non_directory [of fs_directory server0 Directory]
  by (simp add: fs_regular_def fs_directory_def srv_Socket_def server0_def os_RemoveAll_def
        net_Listen_unix_def)

text \<open>
  The claim as it was stated fails for a regular file at the path: it is removed and the
  listener is bound.
\<close>

theorem listenUnix_regular_file_counterexample:
  "nodes fs_regular (srv_Socket server0) = Some RegularFile \<and>
   fst (listenUnix server0 fs_regular) =
     Listening \<lparr>network = ''unix'', laddr = ''/tmp/redeo.sock'', lclose_err = None\<rparr> \<and>
   nodes (snd (listenUnix server0 fs_regular)) ''/tmp/redeo.sock'' = Some SocketFile"
  by (simp add: listenUnix_def os_Stat_def os_IsNotExist_def IsDir_def os_RemoveAll_def
        net_Listen_unix_def fs_regular_def srv_Socket_def server0_def)

lemma listenUnix_stat_failure_panics:
  "stat_err fs (srv_Socket srv) = Some e \<Longrightarrow> e \<noteq> ErrNotExist \<Longrightarrow>
   listenUnix srv fs = (Panic, fs)"
  by (simp add: listenUnix_def os_Stat_def os_IsNotExist_def)

end
